theory Spec2Isabelle
  imports
    Main
    "HOL-Library.Finite_Map"
    "HOL-Library.FSet"
    "HOL-Library.Char_ord"
    "HOL-Library.List_Lexorder"
begin

section \<open>Node snapshots and the node map (pkg/proxy, node change tracking)\<close>

text \<open>
  \<^verbatim>\<open>types.NodeName\<close> is a Go string.  A Go \<^verbatim>\<open>map[K]V\<close> is a finite map; the label map
  of a node may also be the nil map, which \<^verbatim>\<open>reflect.DeepEqual\<close> tells apart from an
  empty non-nil map, so a label map is an optional finite map (\<open>None\<close> is nil).
\<close>

type_synonym NodeName = string

type_synonym label_map = "(string, string) fmap option"

text \<open>The two fields of \<^verbatim>\<open>v1.Node\<close> that the proxy reads: \<^verbatim>\<open>node.Name\<close> and
  \<^verbatim>\<open>node.ObjectMeta.Labels\<close>.\<close>

record v1_Node =
  ObjectMeta_Name :: string
  ObjectMeta_Labels :: label_map

record BaseNodeInfo =
  name :: NodeName
  labels :: label_map

definition newBaseNodeInfo :: "string \<Rightarrow> label_map \<Rightarrow> BaseNodeInfo" where
  "newBaseNodeInfo n ls = \<lparr>name = n, labels = ls\<rparr>"

definition BaseNodeInfo_NodeName :: "BaseNodeInfo \<Rightarrow> NodeName" where
  "BaseNodeInfo_NodeName info = name info"

text \<open>\<^verbatim>\<open>GetTopologyValue\<close> returns \<^verbatim>\<open>(value, true)\<close> or \<^verbatim>\<open>("", false)\<close>; reading a nil
  map finds nothing.\<close>

definition GetTopologyValue :: "BaseNodeInfo \<Rightarrow> string \<Rightarrow> string option" where
  "GetTopologyValue info key =
     (case labels info of None \<Rightarrow> None | Some m \<Rightarrow> fmlookup m key)"

text \<open>A \<^verbatim>\<open>Node\<close> interface value is nil or a \<^verbatim>\<open>*BaseNodeInfo\<close>; the node map never holds
  nil (\<^verbatim>\<open>add\<close> refuses it).\<close>

type_synonym Node = "BaseNodeInfo option"

type_synonym NodeMap = "(NodeName, BaseNodeInfo) fmap"

text \<open>An endpoint, as far as the filter reads it: its address and its owning node.\<close>

record BaseEndpointInfo =
  Endpoint :: string
  NodeName :: NodeName

definition GetNodeName :: "BaseEndpointInfo \<Rightarrow> NodeName" where
  "GetNodeName ep = NodeName ep"

section \<open>FilterTopologyEndpoint\<close>

text \<open>The inner loop over the candidates for one key; \<open>filteredEndpoint\<close> is the slice
  the source appends to.\<close>

fun scanEndpoints ::
  "NodeMap \<Rightarrow> string \<Rightarrow> string \<Rightarrow> BaseEndpointInfo list \<Rightarrow> BaseEndpointInfo list
     \<Rightarrow> BaseEndpointInfo list" where
  "scanEndpoints nodeMap key topologyValue [] filteredEndpoint = filteredEndpoint"
| "scanEndpoints nodeMap key topologyValue (ep # eps) filteredEndpoint =
     (let nodeName = GetNodeName ep in
      if nodeName = '''' then scanEndpoints nodeMap key topologyValue eps filteredEndpoint
      else
        (case fmlookup nodeMap nodeName of
           None \<Rightarrow> scanEndpoints nodeMap key topologyValue eps filteredEndpoint
         | Some node \<Rightarrow>
             (case GetTopologyValue node key of
                Some v \<Rightarrow>
                  if v = topologyValue
                  then scanEndpoints nodeMap key topologyValue eps (filteredEndpoint @ [ep])
                  else scanEndpoints nodeMap key topologyValue eps filteredEndpoint
              | None \<Rightarrow> scanEndpoints nodeMap key topologyValue eps filteredEndpoint)))"

text \<open>The outer loop over the topology keys: return on the empty key, continue when the
  current node has no value for the key, break as soon as the slice is non-empty.\<close>

fun scanKeys ::
  "NodeMap \<Rightarrow> BaseNodeInfo \<Rightarrow> BaseEndpointInfo list \<Rightarrow> string list \<Rightarrow> BaseEndpointInfo list
     \<Rightarrow> BaseEndpointInfo list" where
  "scanKeys nodeMap currentNode endpoints [] filteredEndpoint = filteredEndpoint"
| "scanKeys nodeMap currentNode endpoints (key # keys) filteredEndpoint =
     (if key = '''' then endpoints
      else
        (case GetTopologyValue currentNode key of
           None \<Rightarrow> scanKeys nodeMap currentNode endpoints keys filteredEndpoint
         | Some topologyValue \<Rightarrow>
             (let filteredEndpoint' =
                    scanEndpoints nodeMap key topologyValue endpoints filteredEndpoint
              in if length filteredEndpoint' > 0 then filteredEndpoint'
                 else scanKeys nodeMap currentNode endpoints keys filteredEndpoint')))"

definition FilterTopologyEndpoint ::
  "NodeName \<Rightarrow> NodeMap \<Rightarrow> string list \<Rightarrow> BaseEndpointInfo list \<Rightarrow> BaseEndpointInfo list" where
  "FilterTopologyEndpoint currentNodeName nodeMap topologyKeys endpoints =
     (if length topologyKeys = 0 then endpoints
      else
        (case fmlookup nodeMap currentNodeName of
           None \<Rightarrow> endpoints
         | Some currentNode \<Rightarrow> scanKeys nodeMap currentNode endpoints topologyKeys []))"

text \<open>
  The specification's reading of the scan.  An endpoint matches a key when the key is
  the empty string (the wildcard accepts every candidate), or when the current node has
  a value for the key and the endpoint's owning node is named, known to the node map and
  carries the same value.
\<close>

definition matchesKey :: "NodeMap \<Rightarrow> BaseNodeInfo \<Rightarrow> string \<Rightarrow> BaseEndpointInfo \<Rightarrow> bool" where
  "matchesKey nodeMap currentNode key ep =
     (if key = '''' then True
      else
        (case GetTopologyValue currentNode key of
           None \<Rightarrow> False
         | Some topologyValue \<Rightarrow>
             GetNodeName ep \<noteq> '''' \<and>
             (case fmlookup nodeMap (GetNodeName ep) of
                None \<Rightarrow> False
              | Some node \<Rightarrow> GetTopologyValue node key = Some topologyValue)))"

definition keyMatches ::
  "NodeMap \<Rightarrow> BaseNodeInfo \<Rightarrow> BaseEndpointInfo list \<Rightarrow> string \<Rightarrow> BaseEndpointInfo list" where
  "keyMatches nodeMap currentNode endpoints key =
     filter (matchesKey nodeMap currentNode key) endpoints"

text \<open>The result the specification describes: the matches of the first key, in priority
  order, that has a match; the empty list when no key has one.\<close>

definition firstMatchingKey ::
  "NodeMap \<Rightarrow> BaseNodeInfo \<Rightarrow> string list \<Rightarrow> BaseEndpointInfo list \<Rightarrow> BaseEndpointInfo list" where
  "firstMatchingKey nodeMap currentNode topologyKeys endpoints =
     (case find (\<lambda>key. keyMatches nodeMap currentNode endpoints key \<noteq> []) topologyKeys of
        None \<Rightarrow> []
      | Some key \<Rightarrow> keyMatches nodeMap currentNode endpoints key)"

section \<open>NodeChangeTracker\<close>

text \<open>\<^verbatim>\<open>nodeChange\<close>: the accumulated (previous, current) pair of one node.\<close>

record nodeChange =
  previous :: Node
  current :: Node

text \<open>The tracker's \<^verbatim>\<open>items\<close> map; the mutex serialises callers and has no state of
  its own here.\<close>

record NodeChangeTracker =
  items :: "(NodeName, nodeChange) fmap"

text \<open>The two package-level metrics the tracker writes: the counter
  \<^verbatim>\<open>metrics.NodeChangesTotal\<close> and the gauge \<^verbatim>\<open>metrics.NodeChangesPending\<close>.\<close>

record metrics =
  NodeChangesTotal :: nat
  NodeChangesPending :: nat

definition NewNodeChangeTracker :: NodeChangeTracker where
  "NewNodeChangeTracker = \<lparr>items = fmempty\<rparr>"

definition convertNode :: "v1_Node option \<Rightarrow> Node" where
  "convertNode node =
     (case node of
        None \<Rightarrow> None
      | Some n \<Rightarrow> Some (newBaseNodeInfo (ObjectMeta_Name n) (ObjectMeta_Labels n)))"

text \<open>\<^verbatim>\<open>reflect.DeepEqual\<close> on two \<^verbatim>\<open>Node\<close> values: both nil, or both non-nil with equal
  names and label maps that are both nil or both non-nil with the same entries.  On the
  types above that is equality.\<close>

definition DeepEqual :: "Node \<Rightarrow> Node \<Rightarrow> bool" where
  "DeepEqual a b = (a = b)"

text \<open>The node whose name keys the record: \<^verbatim>\<open>current\<close>, or \<^verbatim>\<open>previous\<close> when
  \<^verbatim>\<open>current\<close> is nil.\<close>

definition changedNode :: "v1_Node option \<Rightarrow> v1_Node option \<Rightarrow> v1_Node option" where
  "changedNode prev cur = (case cur of None \<Rightarrow> prev | Some c \<Rightarrow> Some c)"

text \<open>The record \<^verbatim>\<open>change\<close> points to once its \<^verbatim>\<open>current\<close> field is assigned: a fresh
  one, whose \<^verbatim>\<open>previous\<close> is the converted argument, when the key had none, the stored one
  otherwise.\<close>

definition recordChange ::
  "NodeChangeTracker \<Rightarrow> v1_Node option \<Rightarrow> v1_Node option \<Rightarrow> NodeName \<Rightarrow> nodeChange" where
  "recordChange ect prev cur key =
     (case fmlookup (items ect) key of
        None \<Rightarrow> \<lparr>previous = convertNode prev, current = None\<rparr>
      | Some c \<Rightarrow> c)\<lparr>current := convertNode cur\<rparr>"

text \<open>\<^verbatim>\<open>Update\<close> returns its boolean, the tracker and the metrics as it leaves them.
  The record is the entry of the map under the key (the source writes through a
  pointer to it), and is dropped again when its two snapshots are deeply equal.\<close>

definition Update ::
  "NodeChangeTracker \<Rightarrow> metrics \<Rightarrow> v1_Node option \<Rightarrow> v1_Node option
     \<Rightarrow> bool \<times> NodeChangeTracker \<times> metrics" where
  "Update ect mt prev cur =
     (case changedNode prev cur of
        None \<Rightarrow> (False, ect, mt)
      | Some node \<Rightarrow>
          (let mt1 = mt\<lparr>NodeChangesTotal := NodeChangesTotal mt + 1\<rparr>;
               key = ObjectMeta_Name node;
               change = recordChange ect prev cur key;
               items1 = fmupd key change (items ect);
               items2 =
                 (if DeepEqual (previous change) (current change)
                  then fmdrop key items1 else items1);
               mt2 = mt1\<lparr>NodeChangesPending := fcard (fmdom items2)\<rparr>
           in (fcard (fmdom items2) > 0, ect\<lparr>items := items2\<rparr>, mt2)))"

section \<open>NodeMap\<close>

definition NodeMap_add :: "NodeMap \<Rightarrow> Node \<Rightarrow> NodeMap" where
  "NodeMap_add em other =
     (case other of None \<Rightarrow> em | Some n \<Rightarrow> fmupd (BaseNodeInfo_NodeName n) n em)"

definition NodeMap_remove :: "NodeMap \<Rightarrow> Node \<Rightarrow> NodeMap" where
  "NodeMap_remove em other =
     (case other of None \<Rightarrow> em | Some n \<Rightarrow> fmdrop (BaseNodeInfo_NodeName n) em)"

text \<open>
  The loop \<^verbatim>\<open>for _, change := range changes.items\<close>.  Go visits every key of the map
  once, in an order it does not specify; the order is the argument \<open>order\<close>, and
  \<open>rangeOrder\<close> says that a list is such an order.
\<close>

definition rangeOrder :: "(NodeName, nodeChange) fmap \<Rightarrow> NodeName list \<Rightarrow> bool" where
  "rangeOrder m order = (distinct order \<and> set order = fmdom' m)"

fun applyChanges :: "(NodeName, nodeChange) fmap \<Rightarrow> NodeName list \<Rightarrow> NodeMap \<Rightarrow> NodeMap" where
  "applyChanges m [] em = em"
| "applyChanges m (k # order) em =
     (case fmlookup m k of
        None \<Rightarrow> applyChanges m order em
      | Some change \<Rightarrow>
          applyChanges m order
            (NodeMap_add (NodeMap_remove em (previous change)) (current change)))"

text \<open>\<^verbatim>\<open>NodeMap.apply\<close>; \<open>None\<close> is the nil tracker.\<close>

definition NodeMap_apply ::
  "NodeName list \<Rightarrow> NodeMap \<Rightarrow> NodeChangeTracker option \<Rightarrow> metrics
     \<Rightarrow> NodeMap \<times> NodeChangeTracker option \<times> metrics" where
  "NodeMap_apply order em changes mt =
     (case changes of
        None \<Rightarrow> (em, None, mt)
      | Some ect \<Rightarrow>
          (applyChanges (items ect) order em,
           Some (ect\<lparr>items := fmempty\<rparr>),
           mt\<lparr>NodeChangesPending := 0\<rparr>))"

definition UpdateNodeMap ::
  "NodeName list \<Rightarrow> NodeMap \<Rightarrow> NodeChangeTracker option \<Rightarrow> metrics
     \<Rightarrow> NodeMap \<times> NodeChangeTracker option \<times> metrics" where
  "UpdateNodeMap order nodeMap changes mt = NodeMap_apply order nodeMap changes mt"

text \<open>The node identities a pending map names: the identity of every record's previous
  snapshot and of every record's current snapshot.\<close>

definition changeNames :: "nodeChange \<Rightarrow> NodeName set" where
  "changeNames change =
     (case previous change of None \<Rightarrow> {} | Some p \<Rightarrow> {BaseNodeInfo_NodeName p}) \<union>
     (case current change of None \<Rightarrow> {} | Some c \<Rightarrow> {BaseNodeInfo_NodeName c})"

definition pendingNames :: "(NodeName, nodeChange) fmap \<Rightarrow> NodeName set" where
  "pendingNames m = (\<Union>k \<in> fmdom' m. case fmlookup m k of None \<Rightarrow> {} | Some c \<Rightarrow> changeNames c)"

text \<open>Every record holds a snapshot and is filed under the identity of the snapshots it
  holds, as it is when each event delivers the previous and the current state of one and
  the same node.\<close>

definition keyedByName :: "(NodeName, nodeChange) fmap \<Rightarrow> bool" where
  "keyedByName m =
     (\<forall>k change. fmlookup m k = Some change \<longrightarrow> changeNames change = {k})"

text \<open>No identity is named by two pending records.\<close>

definition disjointChanges :: "(NodeName, nodeChange) fmap \<Rightarrow> bool" where
  "disjointChanges m =
     (\<forall>k k' c c'. k \<noteq> k' \<longrightarrow> fmlookup m k = Some c \<longrightarrow> fmlookup m k' = Some c' \<longrightarrow>
        changeNames c \<inter> changeNames c' = {})"

text \<open>What one record does to the node map: remove, then add.\<close>

definition applyChange :: "nodeChange \<Rightarrow> NodeMap \<Rightarrow> NodeMap" where
  "applyChange change em = NodeMap_add (NodeMap_remove em (previous change)) (current change)"

text \<open>The accumulated previous snapshot of a key when \<^verbatim>\<open>Update\<close> runs: the previous
  snapshot of the record the key already has, or the converted \<^verbatim>\<open>previous\<close> argument
  when it has none.\<close>

definition accumulatedPrevious :: "NodeChangeTracker \<Rightarrow> NodeName \<Rightarrow> v1_Node option \<Rightarrow> Node" where
  "accumulatedPrevious ect key prev =
     (case fmlookup (items ect) key of None \<Rightarrow> convertNode prev | Some c \<Rightarrow> previous c)"

section \<open>The ipset interface (pkg/util/ipset)\<close>

text \<open>A Go \<^verbatim>\<open>error\<close> is nil (\<open>None\<close>) or carries a message.\<close>

type_synonym go_error = string

text \<open>
  \<^verbatim>\<open>ipset.Interface\<close>, the methods the proxy's set wrapper calls.  An implementation
  talks to the kernel; \<open>'s\<close> is the state it talks to, every method takes that state
  and returns it with its Go results.  A nil slice and an empty slice are both \<open>[]\<close>.
\<close>

record 's Interface =
  AddEntry :: "string \<Rightarrow> string \<Rightarrow> bool \<Rightarrow> 's \<Rightarrow> go_error option \<times> 's"
  DelEntry :: "string \<Rightarrow> string \<Rightarrow> 's \<Rightarrow> go_error option \<times> 's"
  ListEntries :: "string \<Rightarrow> 's \<Rightarrow> (string list \<times> go_error option) \<times> 's"

record util_IPSet =
  Name :: string
  SetType :: string
  HashFamily :: string
  HashSize :: int
  MaxElem :: int
  PortRange :: string

text \<open>\<^verbatim>\<open>exec.Command(cmd, args...).CombinedOutput()\<close>: the output and the error.\<close>

type_synonym 's exec = "string \<Rightarrow> string list \<Rightarrow> 's \<Rightarrow> (string \<times> go_error option) \<times> 's"

definition IPSetCmd :: string where
  "IPSetCmd = ''ipset''"

text \<open>\<^verbatim>\<open>strings.Split(s, "\n")\<close>: one piece more than there are newlines.\<close>

fun Split_newline :: "string \<Rightarrow> string list" where
  "Split_newline [] = [[]]"
| "Split_newline (c # cs) =
     (if c = CHR 0x0A then [] # Split_newline cs
      else (case Split_newline cs of [] \<Rightarrow> [[c]] | w # ws \<Rightarrow> (c # w) # ws))"

definition runner_AddEntry ::
  "'s exec \<Rightarrow> string \<Rightarrow> string \<Rightarrow> bool \<Rightarrow> 's \<Rightarrow> go_error option \<times> 's" where
  "runner_AddEntry exec entry setName ignoreExistErr s =
     (let args = [''add'', setName, entry] @ (if ignoreExistErr then [''-exist''] else [])
      in case exec IPSetCmd args s of
           ((out, Some err), s') \<Rightarrow>
             (Some (''error adding entry '' @ entry @ '', error: '' @ err), s')
         | ((out, None), s') \<Rightarrow> (None, s'))"

definition runner_DelEntry :: "'s exec \<Rightarrow> string \<Rightarrow> string \<Rightarrow> 's \<Rightarrow> go_error option \<times> 's" where
  "runner_DelEntry exec entry setName s =
     (case exec IPSetCmd [''del'', setName, entry] s of
        ((out, Some err), s') \<Rightarrow>
          (Some (''error deleting entry '' @ entry @ '': from set: '' @ setName @
                 '', error: '' @ err), s')
      | ((out, None), s') \<Rightarrow> (None, s'))"

text \<open>\<^verbatim>\<open>runner.ListEntries\<close>; \<open>stripHeader\<close> is the regular-expression replacement that
  cuts everything up to the \<^verbatim>\<open>Members:\<close> line.\<close>

definition runner_ListEntries ::
  "'s exec \<Rightarrow> (string \<Rightarrow> string) \<Rightarrow> string \<Rightarrow> 's \<Rightarrow> (string list \<times> go_error option) \<times> 's" where
  "runner_ListEntries exec stripHeader setName s =
     (if length setName = 0 then (([], Some (''set name can'' @ [CHR 0x27] @ ''t be nil'')), s)
      else
        (case exec IPSetCmd [''list'', setName] s of
           ((out, Some err), s') \<Rightarrow>
             (([], Some (''error listing set: '' @ setName @ '', error: '' @ err)), s')
         | ((out, None), s') \<Rightarrow>
             ((filter (\<lambda>str. length str > 0) (Split_newline (stripHeader out)), None), s')))"

definition runner :: "'s exec \<Rightarrow> (string \<Rightarrow> string) \<Rightarrow> 's Interface" where
  "runner exec stripHeader =
     \<lparr>AddEntry = runner_AddEntry exec,
      DelEntry = runner_DelEntry exec,
      ListEntries = runner_ListEntries exec stripHeader\<rparr>"

text \<open>\<^verbatim>\<open>testing.FakeIPSet\<close>, the no-op implementation.\<close>

definition FakeIPSet :: "'s Interface" where
  "FakeIPSet =
     \<lparr>AddEntry = (\<lambda>entry setName ignoreExistErr s. (None, s)),
      DelEntry = (\<lambda>entry setName s. (None, s)),
      ListEntries = (\<lambda>setName s. (([], None), s))\<rparr>"

section \<open>The proxy's IPSet wrapper (pkg/proxy/ipvs)\<close>

text \<open>
  The wrapper embeds \<^verbatim>\<open>utilipset.IPSet\<close> and adds the desired entries, a
  \<^verbatim>\<open>sets.String\<close>: a finite set of strings, whose \<^verbatim>\<open>List()\<close> is the sorted list of its
  members, \<^verbatim>\<open>Difference\<close> the set difference and \<^verbatim>\<open>Equal\<close> equality of sets.  The handle
  is passed beside it.
\<close>

record IPSet = util_IPSet +
  activeEntries :: "string fset"

definition resetEntries :: "IPSet \<Rightarrow> IPSet" where
  "resetEntries ipset = ipset\<lparr>activeEntries := {||}\<rparr>"

definition isEmpty :: "'s Interface \<Rightarrow> IPSet \<Rightarrow> 's \<Rightarrow> bool \<times> 's" where
  "isEmpty handle ipset s =
     (case ListEntries handle (Name ipset) s of
        ((entries, err), s') \<Rightarrow> (length entries = 0, s'))"











section \<open>Example data\<close>

text \<open>The cluster of \<^verbatim>\<open>TestFilterTopologyEndpoint\<close>, Case[2].\<close>

definition testNode1 :: BaseNodeInfo where
  "testNode1 =
     \<lparr>name = ''testNode1'',
      labels = Some (fmupd ''kubernetes.io/hostname'' ''10.0.0.1''
                 (fmupd ''failure-domain.beta.kubernetes.io/zone'' ''90001'' fmempty))\<rparr>"

definition testNode2 :: BaseNodeInfo where
  "testNode2 =
     \<lparr>name = ''testNode2'',
      labels = Some (fmupd ''kubernetes.io/hostname'' ''10.0.0.2''
                 (fmupd ''failure-domain.beta.kubernetes.io/zone'' ''90002'' fmempty))\<rparr>"

definition testNode3 :: BaseNodeInfo where
  "testNode3 =
     \<lparr>name = ''testNode3'',
      labels = Some (fmupd ''kubernetes.io/hostname'' ''10.0.0.3''
                 (fmupd ''failure-domain.beta.kubernetes.io/zone'' ''90001'' fmempty))\<rparr>"

definition testNodeMap :: NodeMap where
  "testNodeMap =
     fmupd ''testNode1'' testNode1
       (fmupd ''testNode2'' testNode2 (fmupd ''testNode3'' testNode3 fmempty))"

definition endpoint1 :: BaseEndpointInfo where
  "endpoint1 = \<lparr>Endpoint = ''1.1.1.1:11'', NodeName = ''testNode1''\<rparr>"

definition endpoint2 :: BaseEndpointInfo where
  "endpoint2 = \<lparr>Endpoint = ''1.1.1.2:11'', NodeName = ''testNode2''\<rparr>"

definition endpoint3 :: BaseEndpointInfo where
  "endpoint3 = \<lparr>Endpoint = ''1.1.1.3:11'', NodeName = ''testNode3''\<rparr>"

definition hostnameKey :: string where
  "hostnameKey = ''kubernetes.io/hostname''"

definition zoneKey :: string where
  "zoneKey = ''failure-domain.beta.kubernetes.io/zone''"

text \<open>\<^verbatim>\<open>makeTestNode\<close> of the node tests, and the label maps its nodes carry.\<close>

definition makeTestNode :: "string \<Rightarrow> label_map \<Rightarrow> v1_Node" where
  "makeTestNode n ls = \<lparr>ObjectMeta_Name = n, ObjectMeta_Labels = ls\<rparr>"

definition regionLabels :: label_map where
  "regionLabels = Some (fmupd ''failure-domain.beta.kubernetes.io/region'' ''bj'' fmempty)"

definition zoneLabels :: label_map where
  "zoneLabels = Some (fmupd ''failure-domain.beta.kubernetes.io/zone'' ''90001'' fmempty)"

definition noMetrics :: metrics where
  "noMetrics = \<lparr>NodeChangesTotal = 0, NodeChangesPending = 0\<rparr>"

text \<open>A tracker with two pending records: node 1 gained a label, node 2 was deleted.\<close>

definition pendingItems :: "(NodeName, nodeChange) fmap" where
  "pendingItems =
     fmupd ''testNode1''
       \<lparr>previous = Some (newBaseNodeInfo ''testNode1'' None),
        current = Some (newBaseNodeInfo ''testNode1'' regionLabels)\<rparr>
       (fmupd ''testNode2''
          \<lparr>previous = Some (newBaseNodeInfo ''testNode2'' None), current = None\<rparr>
          fmempty)"

definition builtNodeMap :: NodeMap where
  "builtNodeMap =
     fmupd ''testNode1'' (newBaseNodeInfo ''testNode1'' None)
       (fmupd ''testNode2'' (newBaseNodeInfo ''testNode2'' None)
          (fmupd ''testNode3'' (newBaseNodeInfo ''testNode3'' None) fmempty))"


definition testSet :: IPSet where
  "testSet =
     \<lparr>Name = ''KUBE-LOOP-BACK'', SetType = ''hash:ip'', HashFamily = ''inet'',
      HashSize = 0, MaxElem = 0, PortRange = '''',
      activeEntries = {|''A'', ''B''|}\<rparr>"

text \<open>A command runner whose every command fails.\<close>

definition failingExec :: "unit exec" where
  "failingExec cmd args s = ((''ipset: Kernel error received'', Some ''exit status 1''), s)"

text \<open>An add of node 1 followed, before any apply, by an update that changes nothing.\<close>

definition afterAdd :: "bool \<times> NodeChangeTracker \<times> metrics" where
  "afterAdd = Update NewNodeChangeTracker noMetrics None (Some (makeTestNode ''testNode1'' None))"

definition afterAddUpdate :: "bool \<times> NodeChangeTracker \<times> metrics" where
  "afterAddUpdate =
     Update (fst (snd afterAdd)) (snd (snd afterAdd))
       (Some (makeTestNode ''testNode1'' None)) (Some (makeTestNode ''testNode1'' None))"

text \<open>An update of node 1 that adds a label, then a second one that replaces it.\<close>

definition afterUpdate :: "bool \<times> NodeChangeTracker \<times> metrics" where
  "afterUpdate =
     Update NewNodeChangeTracker noMetrics
       (Some (makeTestNode ''testNode1'' None)) (Some (makeTestNode ''testNode1'' regionLabels))"

definition afterSecondUpdate :: "bool \<times> NodeChangeTracker \<times> metrics" where
  "afterSecondUpdate =
     Update (fst (snd afterUpdate)) (snd (snd afterUpdate))
       (Some (makeTestNode ''testNode1'' regionLabels))
       (Some (makeTestNode ''testNode1'' zoneLabels))"

text \<open>The pending records applied to the map of three nodes, node 1 first.\<close>

definition pendingTracker :: NodeChangeTracker where
  "pendingTracker = \<lparr>items = pendingItems\<rparr>"

definition afterApply :: "NodeMap \<times> NodeChangeTracker option \<times> metrics" where
  "afterApply =
     NodeMap_apply [''testNode1'', ''testNode2''] builtNodeMap (Some pendingTracker) noMetrics"

section \<open>Properties of FilterTopologyEndpoint\<close>

text \<open>The inner loop appends, in candidate order, exactly the endpoints that match the
  key; the outer loop is the search for the first key with a match.\<close>

lemma scanEndpoints_filter:
  "key \<noteq> '''' \<Longrightarrow> GetTopologyValue currentNode key = Some topologyValue \<Longrightarrow>
   scanEndpoints nodeMap key topologyValue eps acc = acc @ keyMatches nodeMap currentNode eps key"
  by (induction eps arbitrary: acc)
     (auto simp: keyMatches_def matchesKey_def Let_def split: option.splits)

lemma keyMatches_wildcard: "keyMatches nodeMap currentNode eps '''' = eps"
  by (simp add: keyMatches_def matchesKey_def)

lemma keyMatches_no_value:
  "key \<noteq> '''' \<Longrightarrow> GetTopologyValue currentNode key = None \<Longrightarrow> keyMatches nodeMap currentNode eps key = []"
  by (simp add: keyMatches_def matchesKey_def)

lemma firstMatchingKey_Nil_endpoints: "firstMatchingKey nodeMap currentNode keys [] = []"
  by (induction keys) (auto simp: firstMatchingKey_def keyMatches_def)

lemma firstMatchingKey_Cons:
  "firstMatchingKey nodeMap currentNode (key # keys) eps =
     (if keyMatches nodeMap currentNode eps key \<noteq> [] then keyMatches nodeMap currentNode eps key
      else firstMatchingKey nodeMap currentNode keys eps)"
  by (simp add: firstMatchingKey_def)

lemma scanKeys_firstMatchingKey:
  "scanKeys nodeMap currentNode eps keys [] = firstMatchingKey nodeMap currentNode keys eps"
proof (induction keys)
  case Nil
  show ?case by (simp add: firstMatchingKey_def)
next
  case (Cons key keys)
  show ?case
  proof (cases "key = ''''")
    case True
    then show ?thesis
      by (cases eps) (simp_all add: firstMatchingKey_Cons keyMatches_wildcard firstMatchingKey_Nil_endpoints)
  next
    case False
    show ?thesis
    proof (cases "GetTopologyValue currentNode key")
      case None
      with False Cons show ?thesis
        by (simp add: firstMatchingKey_Cons keyMatches_no_value)
    next
      case (Some tv)
      with False Cons show ?thesis
        by (simp add: firstMatchingKey_Cons scanEndpoints_filter [where acc = "[]", simplified] Let_def)
    qed
  qed
qed

lemma FilterTopologyEndpoint_known_node:
  "topologyKeys \<noteq> [] \<Longrightarrow> fmlookup nodeMap cur = Some currentNode \<Longrightarrow>
   FilterTopologyEndpoint cur nodeMap topologyKeys endpoints =
     firstMatchingKey nodeMap currentNode topologyKeys endpoints"
  by (simp add: FilterTopologyEndpoint_def scanKeys_firstMatchingKey)

lemma firstMatchingKey_wildcard_reached:
  "(\<forall>key \<in> set before. keyMatches nodeMap currentNode endpoints key = []) \<Longrightarrow>
   firstMatchingKey nodeMap currentNode (before @ '''' # after) endpoints = endpoints"
proof (induction before)
  case Nil
  show ?case
    by (cases endpoints)
       (simp_all add: firstMatchingKey_Cons keyMatches_wildcard firstMatchingKey_Nil_endpoints)
next
  case (Cons key before)
  then show ?case by (simp add: firstMatchingKey_Cons)
qed

text \<open>
  Claim C6.  \<^verbatim>\<open>FilterTopologyEndpoint\<close> returns its candidate list unchanged when the
  topology key list is empty; when the current node's identity is absent from the node
  map; and when the key reached during the priority scan is the empty string, that is,
  when no key before it matched any candidate.
\<close>

theorem FilterTopologyEndpoint_unchanged:
  "FilterTopologyEndpoint cur nodeMap [] endpoints = endpoints \<and>
   (fmlookup nodeMap cur = None \<longrightarrow>
      FilterTopologyEndpoint cur nodeMap topologyKeys endpoints = endpoints) \<and>
   ((\<forall>currentNode. fmlookup nodeMap cur = Some currentNode \<longrightarrow>
        (\<forall>key \<in> set before. keyMatches nodeMap currentNode endpoints key = [])) \<longrightarrow>
      FilterTopologyEndpoint cur nodeMap (before @ '''' # after) endpoints = endpoints)"
proof (intro conjI impI)
  show "FilterTopologyEndpoint cur nodeMap [] endpoints = endpoints"
    by (simp add: FilterTopologyEndpoint_def)
next
  assume "fmlookup nodeMap cur = None"
  then show "FilterTopologyEndpoint cur nodeMap topologyKeys endpoints = endpoints"
    by (simp add: FilterTopologyEndpoint_def)
next
  assume reached: "\<forall>currentNode. fmlookup nodeMap cur = Some currentNode \<longrightarrow>
        (\<forall>key \<in> set before. keyMatches nodeMap currentNode endpoints key = [])"
  show "FilterTopologyEndpoint cur nodeMap (before @ '''' # after) endpoints = endpoints"
  proof (cases "fmlookup nodeMap cur")
    case None
    then show ?thesis by (simp add: FilterTopologyEndpoint_def)
  next
    case (Some currentNode)
    with reached have "\<forall>key \<in> set before. keyMatches nodeMap currentNode endpoints key = []"
      by blast
    then have "firstMatchingKey nodeMap currentNode (before @ '''' # after) endpoints = endpoints"
      by (rule firstMatchingKey_wildcard_reached)
    with Some show ?thesis
      by (simp add: FilterTopologyEndpoint_known_node)
  qed
qed

text \<open>Claim C6, at the cluster of the unit test: no keys; the current node unknown; and
  the keys hostname, zone and the wildcard for node 2, which shares neither hostname nor
  zone with the owners of the two candidates.\<close>

theorem FilterTopologyEndpoint_unchanged_witness:
  "FilterTopologyEndpoint ''testNode2'' testNodeMap [] [endpoint1, endpoint3] = [endpoint1, endpoint3] \<and>
   fmlookup testNodeMap ''testNode'' = None \<and>
   FilterTopologyEndpoint ''testNode'' testNodeMap [zoneKey] [endpoint1, endpoint3] = [endpoint1, endpoint3] \<and>
   fmlookup testNodeMap ''testNode2'' = Some testNode2 \<and>
   keyMatches testNodeMap testNode2 [endpoint1, endpoint3] hostnameKey = [] \<and>
   keyMatches testNodeMap testNode2 [endpoint1, endpoint3] zoneKey = [] \<and>
   FilterTopologyEndpoint ''testNode2'' testNodeMap ([hostnameKey, zoneKey] @ '''' # []) [endpoint1, endpoint3]
     = [endpoint1, endpoint3]"
proof -
  have absent: "fmlookup testNodeMap ''testNode'' = None"
    by (simp add: testNodeMap_def)
  have present: "fmlookup testNodeMap ''testNode2'' = Some testNode2"
    by (simp add: testNodeMap_def)
  have nomatch: "\<forall>key \<in> set [hostnameKey, zoneKey]. keyMatches testNodeMap testNode2 [endpoint1, endpoint3] key = []"
    by (simp add: keyMatches_def matchesKey_def hostnameKey_def zoneKey_def testNodeMap_def
        testNode1_def testNode2_def testNode3_def endpoint1_def endpoint3_def
        GetTopologyValue_def GetNodeName_def)
  have reached: "\<forall>currentNode. fmlookup testNodeMap ''testNode2'' = Some currentNode \<longrightarrow>
     (\<forall>key \<in> set [hostnameKey, zoneKey]. keyMatches testNodeMap currentNode [endpoint1, endpoint3] key = [])"
    using present nomatch by simp
  show ?thesis
    using absent present nomatch reached
      FilterTopologyEndpoint_unchanged [of "''testNode2''" testNodeMap "[endpoint1, endpoint3]" "[zoneKey]" "[hostnameKey, zoneKey]" "[]"]
      FilterTopologyEndpoint_unchanged [of "''testNode''" testNodeMap "[endpoint1, endpoint3]" "[zoneKey]" "[]" "[]"]
    by simp
qed

text \<open>
  Claim C1, as stated, for every key list and node map: it fails at the empty key list.
  No key matches any candidate, the result the claim describes is the empty list, and
  the function returns both candidates.  It returns both candidates also for a current
  node that the node map does not know, whatever the keys.
\<close>

theorem FilterTopologyEndpoint_no_keys_counterexample:
  "fmlookup testNodeMap ''testNode1'' = Some testNode1 \<and>
   FilterTopologyEndpoint ''testNode1'' testNodeMap [] [endpoint1, endpoint2] = [endpoint1, endpoint2] \<and>
   firstMatchingKey testNodeMap testNode1 [] [endpoint1, endpoint2] = [] \<and>
   FilterTopologyEndpoint ''testNode1'' testNodeMap [] [endpoint1, endpoint2] \<noteq>
     firstMatchingKey testNodeMap testNode1 [] [endpoint1, endpoint2] \<and>
   fmlookup testNodeMap ''testNode'' = None \<and>
   FilterTopologyEndpoint ''testNode'' testNodeMap [hostnameKey] [endpoint1, endpoint2] =
     [endpoint1, endpoint2]"
  by (simp add: FilterTopologyEndpoint_def firstMatchingKey_def testNodeMap_def)

text \<open>
  Claim C1, amended.  When the key list is not empty and the current node is in the node
  map, \<^verbatim>\<open>FilterTopologyEndpoint\<close> returns, for the first key in priority order that
  matches at least one candidate, exactly the candidates matching that key, in the
  original candidate order and with nothing from later keys; when no key (the wildcard
  included) matches any candidate it returns the empty list.
\<close>

theorem FilterTopologyEndpoint_first_match:
  assumes "topologyKeys \<noteq> []" and "fmlookup nodeMap cur = Some currentNode"
  shows "FilterTopologyEndpoint cur nodeMap topologyKeys endpoints =
           firstMatchingKey nodeMap currentNode topologyKeys endpoints"
  using assms by (rule FilterTopologyEndpoint_known_node)

text \<open>Claim C1, amended, at Case[2] of the unit test: hostname matches nothing, zone
  matches the first candidate.\<close>

theorem FilterTopologyEndpoint_first_match_witness:
  "[hostnameKey, zoneKey] \<noteq> [] \<and> fmlookup testNodeMap ''testNode3'' = Some testNode3 \<and>
   FilterTopologyEndpoint ''testNode3'' testNodeMap [hostnameKey, zoneKey] [endpoint1, endpoint2] = [endpoint1] \<and>
   firstMatchingKey testNodeMap testNode3 [hostnameKey, zoneKey] [endpoint1, endpoint2] = [endpoint1]"
proof -
  have keys: "[hostnameKey, zoneKey] \<noteq> []" by simp
  have present: "fmlookup testNodeMap ''testNode3'' = Some testNode3"
    by (simp add: testNodeMap_def)
  have "firstMatchingKey testNodeMap testNode3 [hostnameKey, zoneKey] [endpoint1, endpoint2] = [endpoint1]"
    by (simp add: firstMatchingKey_def keyMatches_def matchesKey_def hostnameKey_def zoneKey_def testNodeMap_def
        testNode1_def testNode2_def testNode3_def endpoint1_def endpoint2_def
        GetTopologyValue_def GetNodeName_def)
  then show ?thesis
    using keys present FilterTopologyEndpoint_first_match [OF keys present, of "[endpoint1, endpoint2]"]
    by simp
qed

section \<open>Properties of NodeChangeTracker.Update\<close>

text \<open>
  What \<^verbatim>\<open>Update\<close> leaves in the pending map: nothing under the key when the
  accumulated previous snapshot equals the new current one, the pair of the two otherwise;
  every other key keeps what it had.
\<close>

lemma nodeChange_current_update: "c\<lparr>current := x\<rparr> = \<lparr>previous = previous c, current = x\<rparr>"
  by (cases c) simp

lemma recordChange_eq:
  "recordChange ect prev cur key =
     \<lparr>previous = accumulatedPrevious ect key prev, current = convertNode cur\<rparr>"
  by (simp add: recordChange_def accumulatedPrevious_def nodeChange_current_update
        split: option.splits)

lemma Update_items:
  assumes "changedNode prev cur = Some node"
  shows "items (fst (snd (Update ect mt prev cur))) =
     (if DeepEqual (accumulatedPrevious ect (ObjectMeta_Name node) prev) (convertNode cur)
      then fmdrop (ObjectMeta_Name node) (items ect)
      else fmupd (ObjectMeta_Name node)
             \<lparr>previous = accumulatedPrevious ect (ObjectMeta_Name node) prev,
              current = convertNode cur\<rparr> (items ect))"
  using assms
  by (simp add: Update_def Let_def recordChange_eq fmdrop_fmupd_same)

lemma Update_lookup:
  assumes "changedNode prev cur = Some node"
  shows "fmlookup (items (fst (snd (Update ect mt prev cur)))) (ObjectMeta_Name node) =
     (if DeepEqual (accumulatedPrevious ect (ObjectMeta_Name node) prev) (convertNode cur)
      then None
      else Some \<lparr>previous = accumulatedPrevious ect (ObjectMeta_Name node) prev,
                 current = convertNode cur\<rparr>)"
  by (simp add: Update_items [OF assms])

lemma Update_other:
  assumes "changedNode prev cur = Some node" and "k \<noteq> ObjectMeta_Name node"
  shows "fmlookup (items (fst (snd (Update ect mt prev cur)))) k = fmlookup (items ect) k"
  using assms(2) by (simp add: Update_items [OF assms(1)])

lemma fmdom_fempty_iff: "fmdom m = {||} \<longleftrightarrow> m = fmempty"
proof
  assume "fmdom m = {||}"
  then have "\<And>x. fmlookup m x = None" by (metis fmdom_notD fempty_iff)
  then show "m = fmempty" by (intro fmap_ext) simp
qed simp

lemma fcard_fmdom_pos: "0 < fcard (fmdom m) \<longleftrightarrow> m \<noteq> fmempty"
  using fmdom_fempty_iff [of m] by (cases "fmdom m = {||}") (auto simp: fcard_fempty)

lemma Update_result:
  "fst (Update ect mt prev cur) \<longleftrightarrow>
     changedNode prev cur \<noteq> None \<and> items (fst (snd (Update ect mt prev cur))) \<noteq> fmempty"
  by (auto simp: Update_def Let_def fcard_fmdom_pos split: option.splits)

text \<open>
  Records made by events about one node each stay filed under that node's identity.
\<close>

lemma keyedByName_empty: "keyedByName fmempty"
  by (simp add: keyedByName_def)

lemma Update_keyedByName:
  assumes keyed: "keyedByName (items ect)"
    and same: "\<And>p c. prev = Some p \<Longrightarrow> cur = Some c \<Longrightarrow> ObjectMeta_Name p = ObjectMeta_Name c"
  shows "keyedByName (items (fst (snd (Update ect mt prev cur))))"
proof (cases "changedNode prev cur")
  case None
  with keyed show ?thesis by (simp add: Update_def)
next
  case (Some node)
  define key where "key = ObjectMeta_Name node"
  define acc where "acc = accumulatedPrevious ect key prev"
  have acc_names: "(case acc of None \<Rightarrow> {} | Some p \<Rightarrow> {BaseNodeInfo_NodeName p}) \<subseteq> {key}"
  proof (cases "fmlookup (items ect) key")
    case None
    then have a: "acc = convertNode prev" by (simp add: acc_def accumulatedPrevious_def)
    show ?thesis
    proof (cases prev)
      case None
      with a show ?thesis by (simp add: convertNode_def)
    next
      case p: (Some p)
      have "ObjectMeta_Name p = key"
      proof (cases cur)
        case None
        with p Some show ?thesis by (simp add: key_def changedNode_def)
      next
        case c: (Some c)
        with Some have "node = c" by (simp add: changedNode_def)
        with same [OF p c] show ?thesis by (simp add: key_def)
      qed
      with a p show ?thesis
        by (simp add: convertNode_def newBaseNodeInfo_def BaseNodeInfo_NodeName_def)
    qed
  next
    case (Some change)
    with keyed have "changeNames change = {key}" by (simp add: keyedByName_def)
    moreover from Some have "acc = previous change" by (simp add: acc_def accumulatedPrevious_def)
    ultimately show ?thesis by (auto simp: changeNames_def split: option.splits)
  qed
  have cur_names: "(case convertNode cur of None \<Rightarrow> {} | Some c \<Rightarrow> {BaseNodeInfo_NodeName c}) \<subseteq> {key}"
  proof (cases cur)
    case None
    then show ?thesis by (simp add: convertNode_def)
  next
    case c: (Some c)
    with Some have "node = c" by (simp add: changedNode_def)
    with c show ?thesis
      by (simp add: key_def convertNode_def newBaseNodeInfo_def BaseNodeInfo_NodeName_def)
  qed
  have new: "changeNames \<lparr>previous = acc, current = convertNode cur\<rparr> = {key}"
    if "acc \<noteq> convertNode cur"
  proof (cases acc)
    case None
    with that obtain c where c: "convertNode cur = Some c" by (cases "convertNode cur") auto
    with cur_names None show ?thesis by (simp add: changeNames_def)
  next
    case (Some p)
    with acc_names have p: "BaseNodeInfo_NodeName p = key" by simp
    show ?thesis
    proof (cases "convertNode cur")
      case None
      with Some p show ?thesis by (simp add: changeNames_def)
    next
      case c: (Some c)
      with cur_names have "BaseNodeInfo_NodeName c = key" by simp
      with Some p c show ?thesis by (simp add: changeNames_def)
    qed
  qed
  show ?thesis
    unfolding keyedByName_def
  proof (intro allI impI)
    fix k change
    assume l: "fmlookup (items (fst (snd (Update ect mt prev cur)))) k = Some change"
    show "changeNames change = {k}"
    proof (cases "k = key")
      case True
      with l have "\<not> DeepEqual acc (convertNode cur)"
        and "change = \<lparr>previous = acc, current = convertNode cur\<rparr>"
        by (simp_all add: Update_lookup [OF Some] key_def acc_def split: if_splits)
      with new True show ?thesis by (simp add: DeepEqual_def)
    next
      case False
      with l have "fmlookup (items ect) k = Some change"
        by (simp add: Update_other [OF Some] key_def)
      with keyed show ?thesis by (simp add: keyedByName_def)
    qed
  qed
qed

text \<open>
  Claim C9.  \<^verbatim>\<open>Update(nil, nil)\<close> is a no-op and not an error: the pending map (and the
  metrics) are left as they were, no record is created, and the call returns false.
\<close>

theorem Update_both_absent: "Update ect mt None None = (False, ect, mt)"
  by (simp add: Update_def changedNode_def)

text \<open>
  Claim C4, as stated, for every tracker state: it fails on a tracker that holds the
  pending add of the node.  The update with an unchanged snapshot leaves the record in
  place, because the accumulated previous snapshot is still nil.
\<close>

theorem Update_identical_after_add_counterexample:
  "fmlookup (items (fst (snd afterAddUpdate))) ''testNode1'' =
     Some \<lparr>previous = None, current = Some (newBaseNodeInfo ''testNode1'' None)\<rparr> \<and>
   fst afterAddUpdate"
proof -
  have "fmlookup (items (fst (snd afterAddUpdate))) ''testNode1'' =
     Some \<lparr>previous = None, current = Some (newBaseNodeInfo ''testNode1'' None)\<rparr>"
    by (simp add: afterAddUpdate_def afterAdd_def Update_def recordChange_def changedNode_def makeTestNode_def
        NewNodeChangeTracker_def convertNode_def DeepEqual_def Let_def newBaseNodeInfo_def)
  moreover from this have "items (fst (snd afterAddUpdate)) \<noteq> fmempty" by auto
  then have "fst afterAddUpdate"
    by (simp add: afterAddUpdate_def Update_result changedNode_def)
  ultimately show ?thesis by simp
qed

text \<open>
  Claim C4, amended.  On a tracker with no pending record for the identity,
  \<^verbatim>\<open>Update(n, n')\<close> with \<open>n'\<close> of the same identity and the same labels as \<open>n\<close>
  creates no record and leaves the pending map as it was.  On every tracker, after an
  \<^verbatim>\<open>Update\<close> with a side present the identity has no pending record exactly when the
  accumulated previous snapshot deep-equals the new current snapshot.
\<close>

theorem Update_identical_snapshot:
  "(ObjectMeta_Name n' = ObjectMeta_Name n \<and> ObjectMeta_Labels n' = ObjectMeta_Labels n \<and>
    fmlookup (items ect) (ObjectMeta_Name n) = None \<longrightarrow>
      items (fst (snd (Update ect mt (Some n) (Some n')))) = items ect) \<and>
   (changedNode prev cur = Some node \<longrightarrow>
      (fmlookup (items (fst (snd (Update ect mt prev cur)))) (ObjectMeta_Name node) = None) =
        DeepEqual (accumulatedPrevious ect (ObjectMeta_Name node) prev) (convertNode cur))"
proof (intro conjI impI)
  assume same: "ObjectMeta_Name n' = ObjectMeta_Name n \<and> ObjectMeta_Labels n' = ObjectMeta_Labels n \<and>
    fmlookup (items ect) (ObjectMeta_Name n) = None"
  have node: "changedNode (Some n) (Some n') = Some n'" by (simp add: changedNode_def)
  have "accumulatedPrevious ect (ObjectMeta_Name n') (Some n) = convertNode (Some n')"
    using same by (simp add: accumulatedPrevious_def convertNode_def)
  then have "items (fst (snd (Update ect mt (Some n) (Some n')))) =
      fmdrop (ObjectMeta_Name n') (items ect)"
    by (simp add: Update_items [OF node] DeepEqual_def)
  also have "\<dots> = items ect"
    using same by (intro fmdrop_idle') (simp add: fmdom'_notI)
  finally show "items (fst (snd (Update ect mt (Some n) (Some n')))) = items ect" .
next
  assume "changedNode prev cur = Some node"
  then show "(fmlookup (items (fst (snd (Update ect mt prev cur)))) (ObjectMeta_Name node) = None) =
        DeepEqual (accumulatedPrevious ect (ObjectMeta_Name node) prev) (convertNode cur)"
    by (simp add: Update_lookup)
qed

text \<open>
  Claim C4, amended, at a fresh tracker and at an update that takes node 1 back to the
  state it had before the pending change.
\<close>

theorem Update_identical_snapshot_witness:
  "fmlookup (items NewNodeChangeTracker) (ObjectMeta_Name (makeTestNode ''testNode1'' zoneLabels)) = None \<and>
   items (fst (snd (Update NewNodeChangeTracker noMetrics
       (Some (makeTestNode ''testNode1'' zoneLabels)) (Some (makeTestNode ''testNode1'' zoneLabels))))) =
     items NewNodeChangeTracker \<and>
   changedNode (Some (makeTestNode ''testNode1'' regionLabels)) (Some (makeTestNode ''testNode1'' None)) =
     Some (makeTestNode ''testNode1'' None) \<and>
   DeepEqual (accumulatedPrevious (fst (snd afterUpdate))
                (ObjectMeta_Name (makeTestNode ''testNode1'' None))
                (Some (makeTestNode ''testNode1'' regionLabels)))
             (convertNode (Some (makeTestNode ''testNode1'' None))) \<and>
   fmlookup (items (fst (snd (Update (fst (snd afterUpdate)) (snd (snd afterUpdate))
       (Some (makeTestNode ''testNode1'' regionLabels)) (Some (makeTestNode ''testNode1'' None))))))
     (ObjectMeta_Name (makeTestNode ''testNode1'' None)) = None"
proof -
  have fresh: "fmlookup (items NewNodeChangeTracker) (ObjectMeta_Name (makeTestNode ''testNode1'' zoneLabels)) = None"
    by (simp add: NewNodeChangeTracker_def)
  have node: "changedNode (Some (makeTestNode ''testNode1'' regionLabels)) (Some (makeTestNode ''testNode1'' None)) =
     Some (makeTestNode ''testNode1'' None)"
    by (simp add: changedNode_def)
  have roundtrip: "DeepEqual (accumulatedPrevious (fst (snd afterUpdate))
                (ObjectMeta_Name (makeTestNode ''testNode1'' None))
                (Some (makeTestNode ''testNode1'' regionLabels)))
             (convertNode (Some (makeTestNode ''testNode1'' None)))"
    by (simp add: afterUpdate_def Update_def recordChange_def changedNode_def makeTestNode_def
        NewNodeChangeTracker_def convertNode_def DeepEqual_def Let_def newBaseNodeInfo_def
        accumulatedPrevious_def regionLabels_def)
  have one: "items (fst (snd (Update NewNodeChangeTracker noMetrics
       (Some (makeTestNode ''testNode1'' zoneLabels)) (Some (makeTestNode ''testNode1'' zoneLabels))))) =
     items NewNodeChangeTracker"
    using fresh
    by (intro Update_identical_snapshot [THEN conjunct1, rule_format] conjI refl)
  have two: "fmlookup (items (fst (snd (Update (fst (snd afterUpdate)) (snd (snd afterUpdate))
       (Some (makeTestNode ''testNode1'' regionLabels)) (Some (makeTestNode ''testNode1'' None))))))
     (ObjectMeta_Name (makeTestNode ''testNode1'' None)) = None"
    using roundtrip
    by (simp only: Update_identical_snapshot [THEN conjunct2, rule_format, OF node])
  show ?thesis
    using fresh node roundtrip one two by (intro conjI)
qed

text \<open>
  Claim C5.  For \<^verbatim>\<open>Update(previous, current)\<close> with a side present: when the identity has
  no pending record, the record the call writes holds the converted \<^verbatim>\<open>previous\<close> of this
  call; the record's current field is always the converted \<^verbatim>\<open>current\<close>; the record is
  what the pending map holds under the identity afterwards, unless its two snapshots are
  deeply equal; and the call returns true exactly when the pending map is not empty
  afterwards.  On a fresh tracker, the record that \<^verbatim>\<open>Update(n1, n2)\<close> writes after
  \<^verbatim>\<open>Update(n0, n1)\<close> holds previous \<open>n0\<close> and current \<open>n2\<close>, and it is the one pending
  record when the labels of \<open>n0\<close> and \<open>n2\<close> differ.
\<close>

theorem Update_accumulates:
  assumes "changedNode prev cur = Some node"
  shows
    "(fmlookup (items ect) (ObjectMeta_Name node) = None \<longrightarrow>
        previous (recordChange ect prev cur (ObjectMeta_Name node)) = convertNode prev) \<and>
     current (recordChange ect prev cur (ObjectMeta_Name node)) = convertNode cur \<and>
     fmlookup (items (fst (snd (Update ect mt prev cur)))) (ObjectMeta_Name node) =
       (if DeepEqual (previous (recordChange ect prev cur (ObjectMeta_Name node)))
             (current (recordChange ect prev cur (ObjectMeta_Name node)))
        then None else Some (recordChange ect prev cur (ObjectMeta_Name node))) \<and>
     (fst (Update ect mt prev cur) \<longleftrightarrow> items (fst (snd (Update ect mt prev cur))) \<noteq> fmempty) \<and>
     (ObjectMeta_Name n0 = ObjectMeta_Name n1 \<and> ObjectMeta_Name n1 = ObjectMeta_Name n2 \<longrightarrow>
        recordChange (fst (snd (Update NewNodeChangeTracker mt0 (Some n0) (Some n1))))
            (Some n1) (Some n2) (ObjectMeta_Name n2) =
          \<lparr>previous = convertNode (Some n0), current = convertNode (Some n2)\<rparr> \<and>
        (ObjectMeta_Labels n0 \<noteq> ObjectMeta_Labels n2 \<longrightarrow>
           items (fst (snd (Update (fst (snd (Update NewNodeChangeTracker mt0 (Some n0) (Some n1))))
                              mt1 (Some n1) (Some n2)))) =
             fmupd (ObjectMeta_Name n0)
               \<lparr>previous = convertNode (Some n0), current = convertNode (Some n2)\<rparr> fmempty))"
proof (intro conjI impI)
  assume "fmlookup (items ect) (ObjectMeta_Name node) = None"
  then show "previous (recordChange ect prev cur (ObjectMeta_Name node)) = convertNode prev"
    by (simp add: recordChange_eq accumulatedPrevious_def)
next
  show "current (recordChange ect prev cur (ObjectMeta_Name node)) = convertNode cur"
    by (simp add: recordChange_eq)
next
  show "fmlookup (items (fst (snd (Update ect mt prev cur)))) (ObjectMeta_Name node) =
       (if DeepEqual (previous (recordChange ect prev cur (ObjectMeta_Name node)))
             (current (recordChange ect prev cur (ObjectMeta_Name node)))
        then None else Some (recordChange ect prev cur (ObjectMeta_Name node)))"
    by (simp add: Update_lookup [OF assms] recordChange_eq)
next
  show "fst (Update ect mt prev cur) \<longleftrightarrow> items (fst (snd (Update ect mt prev cur))) \<noteq> fmempty"
    using assms by (simp add: Update_result)
next
  assume names: "ObjectMeta_Name n0 = ObjectMeta_Name n1 \<and> ObjectMeta_Name n1 = ObjectMeta_Name n2"
  define k where "k = ObjectMeta_Name n0"
  define ect1 where "ect1 = fst (snd (Update NewNodeChangeTracker mt0 (Some n0) (Some n1)))"
  have k1: "ObjectMeta_Name n1 = k" and k2: "ObjectMeta_Name n2 = k"
    using names by (simp_all add: k_def)
  have c1: "changedNode (Some n0) (Some n1) = Some n1"
    and c2: "changedNode (Some n1) (Some n2) = Some n2"
    by (simp_all add: changedNode_def)
  have first: "items ect1 =
      (if convertNode (Some n0) = convertNode (Some n1) then fmempty
       else fmupd k \<lparr>previous = convertNode (Some n0), current = convertNode (Some n1)\<rparr> fmempty)"
    unfolding ect1_def
    by (simp add: Update_items [OF c1] k1 accumulatedPrevious_def NewNodeChangeTracker_def
        DeepEqual_def)
  have acc: "accumulatedPrevious ect1 k (Some n1) = convertNode (Some n0)"
    by (simp add: accumulatedPrevious_def first)
  then have "recordChange ect1 (Some n1) (Some n2) k =
      \<lparr>previous = convertNode (Some n0), current = convertNode (Some n2)\<rparr>"
    by (simp add: recordChange_eq)
  then show "recordChange (fst (snd (Update NewNodeChangeTracker mt0 (Some n0) (Some n1))))
            (Some n1) (Some n2) (ObjectMeta_Name n2) =
          \<lparr>previous = convertNode (Some n0), current = convertNode (Some n2)\<rparr>"
    by (simp add: ect1_def k2)
  assume "ObjectMeta_Labels n0 \<noteq> ObjectMeta_Labels n2"
  then have differ: "convertNode (Some n0) \<noteq> convertNode (Some n2)"
    by (simp add: convertNode_def newBaseNodeInfo_def)
  have "items (fst (snd (Update ect1 mt1 (Some n1) (Some n2)))) =
      fmupd k \<lparr>previous = convertNode (Some n0), current = convertNode (Some n2)\<rparr> (items ect1)"
    using differ by (simp add: Update_items [OF c2] k2 acc DeepEqual_def)
  also have "\<dots> = fmupd k \<lparr>previous = convertNode (Some n0), current = convertNode (Some n2)\<rparr> fmempty"
    by (simp add: first)
  finally show "items (fst (snd (Update (fst (snd (Update NewNodeChangeTracker mt0 (Some n0) (Some n1))))
                              mt1 (Some n1) (Some n2)))) =
             fmupd (ObjectMeta_Name n0)
               \<lparr>previous = convertNode (Some n0), current = convertNode (Some n2)\<rparr> fmempty"
    by (simp add: ect1_def k_def)
qed

text \<open>
  Claim C5, at node 1 gaining a label and then having it replaced.
\<close>

theorem Update_accumulates_witness:
  "changedNode (Some (makeTestNode ''testNode1'' None)) (Some (makeTestNode ''testNode1'' regionLabels)) =
     Some (makeTestNode ''testNode1'' regionLabels) \<and>
   fmlookup (items NewNodeChangeTracker) (ObjectMeta_Name (makeTestNode ''testNode1'' regionLabels)) = None \<and>
   previous (recordChange NewNodeChangeTracker (Some (makeTestNode ''testNode1'' None))
      (Some (makeTestNode ''testNode1'' regionLabels))
      (ObjectMeta_Name (makeTestNode ''testNode1'' regionLabels))) =
     Some (newBaseNodeInfo ''testNode1'' None) \<and>
   fmlookup (items (fst (snd afterUpdate))) ''testNode1'' =
     Some \<lparr>previous = Some (newBaseNodeInfo ''testNode1'' None),
           current = Some (newBaseNodeInfo ''testNode1'' regionLabels)\<rparr> \<and>
   fst afterUpdate \<and>
   items (fst (snd afterUpdate)) \<noteq> fmempty \<and>
   ObjectMeta_Name (makeTestNode ''testNode1'' None) =
     ObjectMeta_Name (makeTestNode ''testNode1'' regionLabels) \<and>
   ObjectMeta_Name (makeTestNode ''testNode1'' regionLabels) =
     ObjectMeta_Name (makeTestNode ''testNode1'' zoneLabels) \<and>
   ObjectMeta_Labels (makeTestNode ''testNode1'' None) \<noteq>
     ObjectMeta_Labels (makeTestNode ''testNode1'' zoneLabels) \<and>
   items (fst (snd afterSecondUpdate)) =
     fmupd ''testNode1''
       \<lparr>previous = Some (newBaseNodeInfo ''testNode1'' None),
        current = Some (newBaseNodeInfo ''testNode1'' zoneLabels)\<rparr> fmempty"
proof -
  have node: "changedNode (Some (makeTestNode ''testNode1'' None)) (Some (makeTestNode ''testNode1'' regionLabels)) =
     Some (makeTestNode ''testNode1'' regionLabels)"
    by (simp add: changedNode_def)
  have fresh: "fmlookup (items NewNodeChangeTracker) (ObjectMeta_Name (makeTestNode ''testNode1'' regionLabels)) = None"
    by (simp add: NewNodeChangeTracker_def)
  have name: "ObjectMeta_Name (makeTestNode ''testNode1'' ls) = ''testNode1''" for ls
    by (simp add: makeTestNode_def)
  have conv: "convertNode (Some (makeTestNode ''testNode1'' ls)) = Some (newBaseNodeInfo ''testNode1'' ls)" for ls
    by (simp add: convertNode_def makeTestNode_def)
  have names: "ObjectMeta_Name (makeTestNode ''testNode1'' None) =
     ObjectMeta_Name (makeTestNode ''testNode1'' regionLabels)"
    "ObjectMeta_Name (makeTestNode ''testNode1'' regionLabels) =
     ObjectMeta_Name (makeTestNode ''testNode1'' zoneLabels)"
    by (simp_all add: name)
  have labels: "ObjectMeta_Labels (makeTestNode ''testNode1'' None) \<noteq>
     ObjectMeta_Labels (makeTestNode ''testNode1'' zoneLabels)"
    by (simp add: makeTestNode_def zoneLabels_def)
  note acc = Update_accumulates [OF node, of NewNodeChangeTracker noMetrics
      "makeTestNode ''testNode1'' None" "makeTestNode ''testNode1'' regionLabels"
      "makeTestNode ''testNode1'' zoneLabels" noMetrics "snd (snd afterUpdate)",
      folded afterUpdate_def, folded afterSecondUpdate_def]
  have "previous (recordChange NewNodeChangeTracker (Some (makeTestNode ''testNode1'' None))
      (Some (makeTestNode ''testNode1'' regionLabels))
      (ObjectMeta_Name (makeTestNode ''testNode1'' regionLabels))) =
     convertNode (Some (makeTestNode ''testNode1'' None))"
    using fresh by (rule acc [THEN conjunct1, rule_format])
  then have prev: "previous (recordChange NewNodeChangeTracker (Some (makeTestNode ''testNode1'' None))
      (Some (makeTestNode ''testNode1'' regionLabels))
      (ObjectMeta_Name (makeTestNode ''testNode1'' regionLabels))) =
     Some (newBaseNodeInfo ''testNode1'' None)"
    by (simp only: conv)
  have written: "recordChange NewNodeChangeTracker (Some (makeTestNode ''testNode1'' None))
      (Some (makeTestNode ''testNode1'' regionLabels)) ''testNode1'' =
     \<lparr>previous = Some (newBaseNodeInfo ''testNode1'' None),
      current = Some (newBaseNodeInfo ''testNode1'' regionLabels)\<rparr>"
    by (simp add: recordChange_eq accumulatedPrevious_def NewNodeChangeTracker_def conv)
  have created: "fmlookup (items (fst (snd afterUpdate))) ''testNode1'' =
     Some \<lparr>previous = Some (newBaseNodeInfo ''testNode1'' None),
           current = Some (newBaseNodeInfo ''testNode1'' regionLabels)\<rparr>"
    using acc [THEN conjunct2, THEN conjunct2, THEN conjunct1, unfolded name written]
    by (simp add: DeepEqual_def newBaseNodeInfo_def regionLabels_def)
  have nonempty: "items (fst (snd afterUpdate)) \<noteq> fmempty"
    using created by auto
  have returned: "fst afterUpdate"
    using nonempty
    by (simp only: acc [THEN conjunct2, THEN conjunct2, THEN conjunct2, THEN conjunct1]
          not_False_eq_True)
  have "items (fst (snd afterSecondUpdate)) =
     fmupd (ObjectMeta_Name (makeTestNode ''testNode1'' None))
       \<lparr>previous = convertNode (Some (makeTestNode ''testNode1'' None)),
        current = convertNode (Some (makeTestNode ''testNode1'' zoneLabels))\<rparr> fmempty"
    using names labels
    by (intro acc [THEN conjunct2, THEN conjunct2, THEN conjunct2, THEN conjunct2,
          rule_format, THEN conjunct2, rule_format] conjI)
  then have twice: "items (fst (snd afterSecondUpdate)) =
     fmupd ''testNode1''
       \<lparr>previous = Some (newBaseNodeInfo ''testNode1'' None),
        current = Some (newBaseNodeInfo ''testNode1'' zoneLabels)\<rparr> fmempty"
    by (simp only: name conv)
  show ?thesis
    using node fresh prev created returned nonempty names labels twice by (intro conjI)
qed

section \<open>Properties of NodeMap.apply\<close>

text \<open>
  One record touches only the identities it names, and what it leaves under them does
  not depend on the map it started from; so records that name different identities can
  be applied in any order.
\<close>

lemma applyChanges_Cons:
  "applyChanges m (k # order) em =
     (case fmlookup m k of None \<Rightarrow> applyChanges m order em
      | Some change \<Rightarrow> applyChanges m order (applyChange change em))"
  by (simp add: applyChange_def split: option.splits)

lemma applyChange_other:
  "n \<notin> changeNames change \<Longrightarrow> fmlookup (applyChange change em) n = fmlookup em n"
  by (auto simp: applyChange_def changeNames_def NodeMap_add_def NodeMap_remove_def
           split: option.splits)

lemma applyChange_named:
  "n \<in> changeNames change \<Longrightarrow>
   fmlookup (applyChange change em) n = fmlookup (applyChange change em') n"
  by (auto simp: applyChange_def changeNames_def NodeMap_add_def NodeMap_remove_def
           split: option.splits)

lemma applyChange_keyed:
  "changeNames change = {k} \<Longrightarrow> fmlookup (applyChange change em) k = current change"
  by (auto simp: applyChange_def changeNames_def NodeMap_add_def NodeMap_remove_def
        BaseNodeInfo_NodeName_def split: option.splits)

lemma applyChanges_untouched:
  "(\<And>k change. k \<in> set order \<Longrightarrow> fmlookup m k = Some change \<Longrightarrow> n \<notin> changeNames change) \<Longrightarrow>
   fmlookup (applyChanges m order em) n = fmlookup em n"
proof (induction order arbitrary: em)
  case Nil
  show ?case by simp
next
  case (Cons k order)
  have rest: "fmlookup (applyChanges m order em') n = fmlookup em' n" for em'
    by (rule Cons.IH) (use Cons.prems in auto)
  show ?case
  proof (cases "fmlookup m k")
    case None
    with rest show ?thesis by simp
  next
    case (Some change)
    have "n \<notin> changeNames change" using Cons.prems [of k change] Some by simp
    then have "fmlookup (applyChange change em) n = fmlookup em n"
      by (rule applyChange_other)
    moreover have "fmlookup (applyChanges m order (applyChange change em)) n =
        fmlookup (applyChange change em) n"
      by (rule rest)
    ultimately show ?thesis using Some by (simp add: applyChanges_Cons del: applyChanges.simps)
  qed
qed

lemma pendingNames_iff:
  "n \<in> pendingNames m \<longleftrightarrow> (\<exists>k change. fmlookup m k = Some change \<and> n \<in> changeNames change)"
proof
  assume "n \<in> pendingNames m"
  then obtain k where "k \<in> fmdom' m" and "n \<in> (case fmlookup m k of None \<Rightarrow> {} | Some c \<Rightarrow> changeNames c)"
    unfolding pendingNames_def by blast
  then show "\<exists>k change. fmlookup m k = Some change \<and> n \<in> changeNames change"
    by (cases "fmlookup m k") auto
next
  assume "\<exists>k change. fmlookup m k = Some change \<and> n \<in> changeNames change"
  then obtain k change where "fmlookup m k = Some change" and "n \<in> changeNames change" by blast
  then show "n \<in> pendingNames m"
    unfolding pendingNames_def by (auto intro!: bexI [of _ k] fmdom'I)
qed

lemma applyChanges_frame:
  "n \<notin> pendingNames m \<Longrightarrow> fmlookup (applyChanges m order em) n = fmlookup em n"
  by (rule applyChanges_untouched) (auto simp: pendingNames_iff)

lemma applyChanges_record:
  assumes dis: "disjointChanges m"
    and look: "fmlookup m k = Some change"
    and n: "n \<in> changeNames change"
  shows "distinct order \<Longrightarrow> k \<in> set order \<Longrightarrow>
    fmlookup (applyChanges m order em) n = fmlookup (applyChange change em) n"
proof (induction order arbitrary: em)
  case Nil
  then show ?case by simp
next
  case (Cons k0 order)
  show ?case
  proof (cases "k0 = k")
    case True
    have "fmlookup (applyChanges m order (applyChange change em)) n =
            fmlookup (applyChange change em) n"
    proof (rule applyChanges_untouched)
      fix k' change'
      assume k': "k' \<in> set order" and l': "fmlookup m k' = Some change'"
      from k' Cons.prems True have "k \<noteq> k'" by auto
      with dis look l' have "changeNames change \<inter> changeNames change' = {}"
        unfolding disjointChanges_def by blast
      with n show "n \<notin> changeNames change'" by auto
    qed
    with True look show ?thesis by (simp add: applyChanges_Cons del: applyChanges.simps)
  next
    case False
    with Cons.prems have k: "k \<in> set order" and d: "distinct order" by auto
    show ?thesis
    proof (cases "fmlookup m k0")
      case None
      with Cons.IH [OF d k] show ?thesis by simp
    next
      case (Some change0)
      have "fmlookup (applyChanges m order (applyChange change0 em)) n =
              fmlookup (applyChange change (applyChange change0 em)) n"
        by (rule Cons.IH [OF d k])
      also have "\<dots> = fmlookup (applyChange change em) n"
        using n by (rule applyChange_named)
      finally show ?thesis using Some by (simp add: applyChanges_Cons del: applyChanges.simps)
    qed
  qed
qed

lemma keyedByName_disjoint:
  assumes "keyedByName m"
  shows "disjointChanges m"
  unfolding disjointChanges_def
proof (intro allI impI)
  fix k k' c c'
  assume "k \<noteq> k'" and "fmlookup m k = Some c" and "fmlookup m k' = Some c'"
  with assms have "changeNames c = {k}" and "changeNames c' = {k'}" and "k \<noteq> k'"
    unfolding keyedByName_def by simp_all
  then show "changeNames c \<inter> changeNames c' = {}" by simp
qed

lemma applyChanges_empty: "applyChanges fmempty order em = em"
  by (induction order) simp_all

lemma pendingItems_keyed: "keyedByName pendingItems"
  unfolding keyedByName_def pendingItems_def
  by (auto simp: changeNames_def BaseNodeInfo_NodeName_def newBaseNodeInfo_def split: if_splits)

text \<open>
  Claim C2.  Whatever the order in which the pending records are visited,
  \<^verbatim>\<open>NodeMap.apply\<close> resets the tracker's pending map to empty (and the gauge to zero) and
  leaves unchanged every map entry whose identity no pending record names.  When no
  identity is named by two records, each record has done to the identities it names what
  removing its previous node and then adding its current node does.  When every record is
  filed under the identity of its snapshots, the map afterwards holds, under each key with
  a pending record, the record's current node (none when it is absent), and under every
  other key what it held before.
\<close>

theorem NodeMap_apply_effect:
  assumes "rangeOrder (items ect) order"
  shows
    "map_option items (fst (snd (NodeMap_apply order em (Some ect) mt))) = Some fmempty \<and>
     NodeChangesPending (snd (snd (NodeMap_apply order em (Some ect) mt))) = 0 \<and>
     (\<forall>n. n \<notin> pendingNames (items ect) \<longrightarrow>
        fmlookup (fst (NodeMap_apply order em (Some ect) mt)) n = fmlookup em n) \<and>
     (disjointChanges (items ect) \<longrightarrow>
        (\<forall>k change n. fmlookup (items ect) k = Some change \<longrightarrow> n \<in> changeNames change \<longrightarrow>
           fmlookup (fst (NodeMap_apply order em (Some ect) mt)) n =
             fmlookup (NodeMap_add (NodeMap_remove em (previous change)) (current change)) n)) \<and>
     (keyedByName (items ect) \<longrightarrow>
        (\<forall>k. fmlookup (fst (NodeMap_apply order em (Some ect) mt)) k =
           (case fmlookup (items ect) k of
              None \<Rightarrow> fmlookup em k
            | Some change \<Rightarrow> current change)))"
proof -
  have res: "fst (NodeMap_apply order em (Some ect) mt) = applyChanges (items ect) order em"
    by (simp add: NodeMap_apply_def)
  from assms have d: "distinct order" and s: "set order = fmdom' (items ect)"
    by (simp_all add: rangeOrder_def)
  have record_effect: "fmlookup (applyChanges (items ect) order em) n = fmlookup (applyChange change em) n"
    if "disjointChanges (items ect)" "fmlookup (items ect) k = Some change" "n \<in> changeNames change"
    for k change n
  proof -
    from that(2) s have "k \<in> set order" by (simp add: fmdom'I)
    with that d show ?thesis by (intro applyChanges_record [where k = k]) 
  qed
  have reset: "map_option items (fst (snd (NodeMap_apply order em (Some ect) mt))) = Some fmempty"
    by (simp add: NodeMap_apply_def)
  have gauge: "NodeChangesPending (snd (snd (NodeMap_apply order em (Some ect) mt))) = 0"
    by (simp add: NodeMap_apply_def)
  have frame: "\<forall>n. n \<notin> pendingNames (items ect) \<longrightarrow>
        fmlookup (fst (NodeMap_apply order em (Some ect) mt)) n = fmlookup em n"
    by (simp add: res applyChanges_frame)
  have disjoint: "disjointChanges (items ect) \<longrightarrow>
        (\<forall>k change n. fmlookup (items ect) k = Some change \<longrightarrow> n \<in> changeNames change \<longrightarrow>
           fmlookup (fst (NodeMap_apply order em (Some ect) mt)) n =
             fmlookup (NodeMap_add (NodeMap_remove em (previous change)) (current change)) n)"
    using record_effect by (simp add: res applyChange_def)
  have keyed: "keyedByName (items ect) \<longrightarrow>
        (\<forall>k. fmlookup (fst (NodeMap_apply order em (Some ect) mt)) k =
           (case fmlookup (items ect) k of
              None \<Rightarrow> fmlookup em k
            | Some change \<Rightarrow> current change))"
  proof (intro impI allI)
    fix k
    assume keyed: "keyedByName (items ect)"
    show "fmlookup (fst (NodeMap_apply order em (Some ect) mt)) k =
           (case fmlookup (items ect) k of
              None \<Rightarrow> fmlookup em k
            | Some change \<Rightarrow> current change)"
    proof (cases "fmlookup (items ect) k")
      case None
      have "k \<notin> pendingNames (items ect)"
      proof
        assume "k \<in> pendingNames (items ect)"
        then obtain k' change where l: "fmlookup (items ect) k' = Some change"
          and n: "k \<in> changeNames change"
          by (auto simp: pendingNames_iff)
        from keyed l have "changeNames change = {k'}" by (simp add: keyedByName_def)
        with n l None show False by simp
      qed
      with None show ?thesis by (simp add: res applyChanges_frame)
    next
      case (Some change)
      with keyed have names: "changeNames change = {k}" by (simp add: keyedByName_def)
      then have "fmlookup (applyChanges (items ect) order em) k = fmlookup (applyChange change em) k"
        using keyed Some by (intro record_effect [where k = k] keyedByName_disjoint) simp_all
      with names Some show ?thesis by (simp add: res applyChange_keyed)
    qed
  qed
  from reset gauge frame disjoint keyed show ?thesis by (intro conjI)
qed

text \<open>
  Claim C2, at the map of three nodes with node 1 relabelled and node 2 deleted.
\<close>

theorem NodeMap_apply_effect_witness:
  "rangeOrder (items pendingTracker) [''testNode1'', ''testNode2''] \<and>
   map_option items (fst (snd afterApply)) = Some fmempty \<and>
   NodeChangesPending (snd (snd afterApply)) = 0 \<and>
   ''testNode3'' \<notin> pendingNames (items pendingTracker) \<and>
   fmlookup (fst afterApply) ''testNode3'' = fmlookup builtNodeMap ''testNode3'' \<and>
   disjointChanges (items pendingTracker) \<and>
   fmlookup (items pendingTracker) ''testNode2'' =
     Some \<lparr>previous = Some (newBaseNodeInfo ''testNode2'' None), current = None\<rparr> \<and>
   ''testNode2'' \<in> changeNames \<lparr>previous = Some (newBaseNodeInfo ''testNode2'' None), current = None\<rparr> \<and>
   fmlookup (fst afterApply) ''testNode2'' =
     fmlookup (NodeMap_add (NodeMap_remove builtNodeMap (Some (newBaseNodeInfo ''testNode2'' None))) None)
       ''testNode2'' \<and>
   keyedByName (items pendingTracker) \<and>
   fmlookup (fst afterApply) ''testNode1'' = Some (newBaseNodeInfo ''testNode1'' regionLabels) \<and>
   fmlookup (fst afterApply) ''testNode2'' = None"
proof -
  have order: "rangeOrder (items pendingTracker) [''testNode1'', ''testNode2'']"
    by (simp add: rangeOrder_def pendingTracker_def pendingItems_def)
  have keyed: "keyedByName (items pendingTracker)"
    by (simp add: pendingTracker_def pendingItems_keyed)
  have disjoint: "disjointChanges (items pendingTracker)"
    using keyed by (rule keyedByName_disjoint)
  have node2: "fmlookup (items pendingTracker) ''testNode2'' =
     Some \<lparr>previous = Some (newBaseNodeInfo ''testNode2'' None), current = None\<rparr>"
    by (simp add: pendingTracker_def pendingItems_def)
  have named: "''testNode2'' \<in> changeNames \<lparr>previous = Some (newBaseNodeInfo ''testNode2'' None), current = None\<rparr>"
    by (simp add: changeNames_def BaseNodeInfo_NodeName_def newBaseNodeInfo_def)
  have other: "''testNode3'' \<notin> pendingNames (items pendingTracker)"
    by (auto simp: pendingNames_iff pendingTracker_def pendingItems_def changeNames_def
        BaseNodeInfo_NodeName_def newBaseNodeInfo_def split: if_splits)
  note effect = NodeMap_apply_effect [OF order, of builtNodeMap noMetrics, folded afterApply_def]
  have reset: "map_option items (fst (snd afterApply)) = Some fmempty"
    by (rule effect [THEN conjunct1])
  have gauge: "NodeChangesPending (snd (snd afterApply)) = 0"
    by (rule effect [THEN conjunct2, THEN conjunct1])
  have frame: "fmlookup (fst afterApply) ''testNode3'' = fmlookup builtNodeMap ''testNode3''"
    using other by (rule effect [THEN conjunct2, THEN conjunct2, THEN conjunct1, rule_format])
  have removed: "fmlookup (fst afterApply) ''testNode2'' =
     fmlookup (NodeMap_add (NodeMap_remove builtNodeMap (Some (newBaseNodeInfo ''testNode2'' None))) None)
       ''testNode2''"
    using effect [THEN conjunct2, THEN conjunct2, THEN conjunct2, THEN conjunct1, rule_format,
        OF disjoint node2 named]
    by simp
  note outcome = effect [THEN conjunct2, THEN conjunct2, THEN conjunct2, THEN conjunct2,
      rule_format, OF keyed]
  have v1: "fmlookup (fst afterApply) ''testNode1'' = Some (newBaseNodeInfo ''testNode1'' regionLabels)"
    by (simp add: outcome pendingTracker_def pendingItems_def)
  have v2: "fmlookup (fst afterApply) ''testNode2'' = None"
    by (simp add: outcome pendingTracker_def pendingItems_def)
  show ?thesis
    using order reset gauge other frame disjoint node2 named removed keyed v1 v2
    by (intro conjI)
qed

text \<open>
  Claim C8.  \<^verbatim>\<open>apply\<close> on a tracker whose pending map is empty leaves the node map
  unchanged; and after any \<^verbatim>\<open>apply\<close>, a second one changes nothing at all.
\<close>

theorem NodeMap_apply_drained:
  "(items ect = fmempty \<longrightarrow> fst (NodeMap_apply order em (Some ect) mt) = em) \<and>
   (NodeMap_apply order em changes mt = (em1, changes1, mt1) \<longrightarrow>
      NodeMap_apply order' em1 changes1 mt1 = (em1, changes1, mt1))"
proof (intro conjI impI)
  assume "items ect = fmempty"
  then show "fst (NodeMap_apply order em (Some ect) mt) = em"
    by (simp add: NodeMap_apply_def applyChanges_empty)
next
  assume "NodeMap_apply order em changes mt = (em1, changes1, mt1)"
  then show "NodeMap_apply order' em1 changes1 mt1 = (em1, changes1, mt1)"
    by (cases changes) (auto simp: NodeMap_apply_def applyChanges_empty)
qed

text \<open>
  Claim C8, at a fresh tracker, and at a second apply after the pending records of the
  example were applied.
\<close>

theorem NodeMap_apply_drained_witness:
  "items NewNodeChangeTracker = fmempty \<and>
   fst (NodeMap_apply [] builtNodeMap (Some NewNodeChangeTracker) noMetrics) = builtNodeMap \<and>
   NodeMap_apply [''testNode1'', ''testNode2''] builtNodeMap (Some pendingTracker) noMetrics =
     (fst afterApply, fst (snd afterApply), snd (snd afterApply)) \<and>
   NodeMap_apply [] (fst afterApply) (fst (snd afterApply)) (snd (snd afterApply)) =
     (fst afterApply, fst (snd afterApply), snd (snd afterApply))"
proof -
  have drained: "items NewNodeChangeTracker = fmempty"
    by (simp add: NewNodeChangeTracker_def)
  have first: "NodeMap_apply [''testNode1'', ''testNode2''] builtNodeMap (Some pendingTracker) noMetrics =
     (fst afterApply, fst (snd afterApply), snd (snd afterApply))"
    by (simp add: afterApply_def)
  have same: "fst (NodeMap_apply [] builtNodeMap (Some NewNodeChangeTracker) noMetrics) = builtNodeMap"
    using drained by (rule NodeMap_apply_drained [THEN conjunct1, rule_format])
  have again: "NodeMap_apply [] (fst afterApply) (fst (snd afterApply)) (snd (snd afterApply)) =
     (fst afterApply, fst (snd afterApply), snd (snd afterApply))"
    using first by (rule NodeMap_apply_drained [THEN conjunct2, rule_format])
  show ?thesis
    using drained same first again by (intro conjI)
qed

section \<open>Properties of the IPSet wrapper\<close>























text \<open>
  Claim C10.  \<^verbatim>\<open>isEmpty\<close> drops the error of \<^verbatim>\<open>ListEntries\<close> and reports whether the
  returned list is empty; with the command-line runner, whose listing returns the nil
  list whenever it fails, a set whose listing fails is reported as empty.
\<close>

theorem isEmpty_ignores_error:
  "(ListEntries handle (Name ipset) s = ((entries, err), s') \<longrightarrow>
      isEmpty handle ipset s = (entries = [], s')) \<and>
   (snd (fst (ListEntries (runner exec stripHeader) (Name ipset) s0)) \<noteq> None \<longrightarrow>
      fst (isEmpty (runner exec stripHeader) ipset s0))"
proof (intro conjI impI)
  assume "ListEntries handle (Name ipset) s = ((entries, err), s')"
  then show "isEmpty handle ipset s = (entries = [], s')"
    by (simp add: isEmpty_def)
next
  assume "snd (fst (ListEntries (runner exec stripHeader) (Name ipset) s0)) \<noteq> None"
  then show "fst (isEmpty (runner exec stripHeader) ipset s0)"
    by (auto simp: isEmpty_def runner_def runner_ListEntries_def
          split: prod.splits option.splits if_splits)
qed

text \<open>
  Claim C10, at a runner whose command fails.
\<close>

theorem isEmpty_ignores_error_witness:
  "ListEntries (runner failingExec (\<lambda>out. out)) (Name testSet) () =
     (([], Some ''error listing set: KUBE-LOOP-BACK, error: exit status 1''), ()) \<and>
   isEmpty (runner failingExec (\<lambda>out. out)) testSet () = (True, ()) \<and>
   snd (fst (ListEntries (runner failingExec (\<lambda>out. out)) (Name testSet) ())) \<noteq> None \<and>
   fst (isEmpty (runner failingExec (\<lambda>out. out)) testSet ())"
proof -
  have listed: "ListEntries (runner failingExec (\<lambda>out. out)) (Name testSet) () =
     (([], Some ''error listing set: KUBE-LOOP-BACK, error: exit status 1''), ())"
    by (simp add: runner_def runner_ListEntries_def failingExec_def testSet_def)
  have failed: "snd (fst (ListEntries (runner failingExec (\<lambda>out. out)) (Name testSet) ())) \<noteq> None"
    by (simp add: listed)
  have "isEmpty (runner failingExec (\<lambda>out. out)) testSet () = (([]::string list) = [], ())"
    using listed by (rule isEmpty_ignores_error [THEN conjunct1, rule_format])
  then have empty: "isEmpty (runner failingExec (\<lambda>out. out)) testSet () = (True, ())"
    by simp
  have reported: "fst (isEmpty (runner failingExec (\<lambda>out. out)) testSet ())"
    using failed by (rule isEmpty_ignores_error [THEN conjunct2, rule_format])
  show ?thesis
    using listed empty failed reported by (intro conjI)
qed

end
